theory Spec2Isabelle
  imports
    Main
    "HOL-Library.Word"
    "HOL-Library.Char_ord"
    "HOL-Library.List_Lexorder"
    "HOL-Library.Multiset"
begin

unbundle bit_operations_syntax

section \<open>The git-commit tagger of skaffold: \<^verbatim>\<open>pkg/skaffold/build/tag/git_commit.go\<close>\<close>

text \<open>
  The file holds two functions, \<^verbatim>\<open>GenerateFullyQualifiedImageName\<close> and
  \<^verbatim>\<open>changedPaths\<close>. Both are embedded below, branch for branch. What they call in
  the libraries (go-git, \<^verbatim>\<open>crypto/sha256\<close>, \<^verbatim>\<open>encoding/hex\<close>, \<^verbatim>\<open>fmt\<close>,
  \<^verbatim>\<open>sort\<close>, \<^verbatim>\<open>io\<close>, \<^verbatim>\<open>errors\<close>) is modelled first, each piece as small as the
  code needs it.

  Go strings are byte sequences; so is \<^typ>\<open>string\<close>, whose characters are 8-bit and are
  ordered by their byte value (\<^verbatim>\<open>Char_ord\<close>), lists lexicographically
  (\<^verbatim>\<open>List_Lexorder\<close>): the order of Go's \<^verbatim>\<open><\<close> on strings.
\<close>

type_synonym byte = "8 word"
type_synonym u32 = "32 word"

subsection \<open>Errors, panics and what a call yields\<close>

text \<open>
  An error of a library is opaque to the code: \<open>LibError\<close> with its message.
  \<^verbatim>\<open>errors.Wrap(err, msg)\<close> is \<open>Wrap err msg\<close>. The function returns the Go pair
  \<^verbatim>\<open>(string, error)\<close>, a \<^verbatim>\<open>nil\<close> error being \<open>None\<close>, unless it panics.
\<close>

datatype error = LibError string | Wrap error string

datatype panic = NilDereference | SliceOutOfRange

datatype outcome = Return string "error option" | Panic panic

subsection \<open>\<^verbatim>\<open>encoding/hex\<close> and slicing\<close>

definition hextable :: string where
  "hextable = ''0123456789abcdef''"

text \<open>\<^verbatim>\<open>hex.EncodeToString\<close>: two digits a byte, the high nibble first.\<close>

definition EncodeToString :: "byte list \<Rightarrow> string" where
  "EncodeToString src =
     concat (map (\<lambda>v. [hextable ! unat (drop_bit 4 v), hextable ! unat (v AND 0x0f)]) src)"

text \<open>The slice expression \<^verbatim>\<open>s[0:n]\<close> of Go panics when \<open>n\<close> exceeds the length.\<close>

definition slice_to :: "string \<Rightarrow> nat \<Rightarrow> string option" where
  "slice_to s n = (if n \<le> length s then Some (take n s) else None)"

text \<open>The conversion \<^verbatim>\<open>[]byte(s)\<close>.\<close>

definition bytes :: "string \<Rightarrow> byte list" where
  "bytes s = map of_char s"

subsection \<open>\<^verbatim>\<open>crypto/sha256\<close>\<close>

text \<open>SHA-256 as FIPS 180-4 defines it, on whole byte sequences.\<close>

definition K256 :: "u32 list" where
  "K256 = [
   0x428A2F98, 0x71374491, 0xB5C0FBCF, 0xE9B5DBA5, 0x3956C25B, 0x59F111F1, 0x923F82A4, 0xAB1C5ED5,
   0xD807AA98, 0x12835B01, 0x243185BE, 0x550C7DC3, 0x72BE5D74, 0x80DEB1FE, 0x9BDC06A7, 0xC19BF174,
   0xE49B69C1, 0xEFBE4786, 0x0FC19DC6, 0x240CA1CC, 0x2DE92C6F, 0x4A7484AA, 0x5CB0A9DC, 0x76F988DA,
   0x983E5152, 0xA831C66D, 0xB00327C8, 0xBF597FC7, 0xC6E00BF3, 0xD5A79147, 0x06CA6351, 0x14292967,
   0x27B70A85, 0x2E1B2138, 0x4D2C6DFC, 0x53380D13, 0x650A7354, 0x766A0ABB, 0x81C2C92E, 0x92722C85,
   0xA2BFE8A1, 0xA81A664B, 0xC24B8B70, 0xC76C51A3, 0xD192E819, 0xD6990624, 0xF40E3585, 0x106AA070,
   0x19A4C116, 0x1E376C08, 0x2748774C, 0x34B0BCB5, 0x391C0CB3, 0x4ED8AA4A, 0x5B9CCA4F, 0x682E6FF3,
   0x748F82EE, 0x78A5636F, 0x84C87814, 0x8CC70208, 0x90BEFFFA, 0xA4506CEB, 0xBEF9A3F7, 0xC67178F2]"

definition init256 :: "u32 list" where
  "init256 = [0x6A09E667, 0xBB67AE85, 0x3C6EF372, 0xA54FF53A,
              0x510E527F, 0x9B05688C, 0x1F83D9AB, 0x5BE0CD19]"

definition rotr :: "nat \<Rightarrow> u32 \<Rightarrow> u32" where
  "rotr n x = drop_bit n x OR push_bit (32 - n) x"

definition ssig0 :: "u32 \<Rightarrow> u32" where
  "ssig0 x = rotr 7 x XOR rotr 18 x XOR drop_bit 3 x"

definition ssig1 :: "u32 \<Rightarrow> u32" where
  "ssig1 x = rotr 17 x XOR rotr 19 x XOR drop_bit 10 x"

definition bsig0 :: "u32 \<Rightarrow> u32" where
  "bsig0 x = rotr 2 x XOR rotr 13 x XOR rotr 22 x"

definition bsig1 :: "u32 \<Rightarrow> u32" where
  "bsig1 x = rotr 6 x XOR rotr 11 x XOR rotr 25 x"

text \<open>The sixteen big-endian words of a block.\<close>

fun be32 :: "byte list \<Rightarrow> u32 list" where
  "be32 (a # b # c # d # bs) =
     (push_bit 24 (ucast a) OR push_bit 16 (ucast b) OR push_bit 8 (ucast c) OR ucast d) # be32 bs"
| "be32 _ = []"

text \<open>The message schedule: \<open>n\<close> more words after those of \<open>w\<close>.\<close>

fun schedule256 :: "nat \<Rightarrow> u32 list \<Rightarrow> u32 list" where
  "schedule256 0 w = w"
| "schedule256 (Suc n) w =
     (let t = length w
      in schedule256 n (w @ [ssig1 (w ! (t - 2)) + w ! (t - 7) + ssig0 (w ! (t - 15)) + w ! (t - 16)]))"

fun round256 :: "u32 list \<Rightarrow> u32 \<times> u32 \<Rightarrow> u32 list" where
  "round256 [a, b, c, d, e, f, g, h] (k, w) =
     (let t1 = h + bsig1 e + ((e AND f) XOR (NOT e AND g)) + k + w;
          t2 = bsig0 a + ((a AND b) XOR (a AND c) XOR (b AND c))
      in [t1 + t2, a, b, c, d + t1, e, f, g])"
| "round256 s _ = s"

definition block256 :: "u32 list \<Rightarrow> byte list \<Rightarrow> u32 list" where
  "block256 s blk = map2 (+) s (foldl round256 s (zip K256 (schedule256 48 (be32 blk))))"

function blocks256 :: "u32 list \<Rightarrow> byte list \<Rightarrow> u32 list" where
  "blocks256 s bs =
     (if length bs < 64 then s else blocks256 (block256 s (take 64 bs)) (drop 64 bs))"
  by pat_completeness auto
termination
  by (relation "measure (\<lambda>(s, bs). length bs)") auto

declare blocks256.simps [simp del]

text \<open>Padding: the bit 1, zeros up to 56 modulo 64, the length in bits as 8 big-endian bytes.\<close>

definition pad256 :: "byte list \<Rightarrow> byte list" where
  "pad256 m = m @ [0x80] @ replicate ((119 - length m mod 64) mod 64) 0
      @ map (\<lambda>i. ucast (drop_bit (8 * (7 - i)) (word_of_nat (8 * length m) :: 64 word))) [0..<8]"

definition unbe32 :: "u32 \<Rightarrow> byte list" where
  "unbe32 x = [ucast (drop_bit 24 x), ucast (drop_bit 16 x), ucast (drop_bit 8 x), ucast x]"

definition sha256 :: "byte list \<Rightarrow> byte list" where
  "sha256 m = concat (map unbe32 (blocks256 init256 (pad256 m)))"

text \<open>
  The \<^verbatim>\<open>hash.Hash\<close> that \<^verbatim>\<open>sha256.New()\<close> returns, as the bytes written to it so far.
  \<^verbatim>\<open>Write\<close> appends and, as \<^verbatim>\<open>hash.Hash\<close> documents, never returns an error;
  \<^verbatim>\<open>Sum(nil)\<close> is the digest of what was written.
\<close>

type_synonym digest = "byte list"

definition sha256_New :: digest where
  "sha256_New = []"

definition digest_Write :: "digest \<Rightarrow> byte list \<Rightarrow> digest \<times> error option" where
  "digest_Write h p = (h @ p, None)"

definition digest_Sum :: "digest \<Rightarrow> byte list" where
  "digest_Sum h = sha256 h"

subsection \<open>go-git: hashes, references, status\<close>

text \<open>
  \<^verbatim>\<open>plumbing.Hash\<close> is \<^verbatim>\<open>[20]byte\<close>: 160 bits, the first byte the most significant
  here, so that a hash reads as its hexadecimal numeral. \<^verbatim>\<open>Hash.String()\<close> is
  \<^verbatim>\<open>hex.EncodeToString(h[:])\<close>.
\<close>

type_synonym Hash = "160 word"

definition Hash_bytes :: "Hash \<Rightarrow> byte list" where
  "Hash_bytes h = map (\<lambda>i. ucast (drop_bit (8 * (19 - i)) h)) [0..<20]"

definition Hash_String :: "Hash \<Rightarrow> string" where
  "Hash_String h = EncodeToString (Hash_bytes h)"

text \<open>
  Of a \<^verbatim>\<open>plumbing.ReferenceName\<close> the code reads \<^verbatim>\<open>Short()\<close> only, which the library
  computes from the full name; of a \<^verbatim>\<open>plumbing.Reference\<close>, \<^verbatim>\<open>Hash()\<close> and
  \<^verbatim>\<open>Name()\<close>.
\<close>

record ReferenceName =
  Short :: string

record Reference =
  Hash :: Hash
  Name :: ReferenceName

text \<open>
  A \<^verbatim>\<open>storer.ReferenceIter\<close>: the references it yields, then the end of the iteration
  or an error. \<^verbatim>\<open>ForEach\<close> calls \<open>cb\<close> on each reference and stops at the first
  error, of the callback or of the iteration; the state \<open>s\<close> is what the callback's closure
  assigns to. (The library's \<^verbatim>\<open>ErrStop\<close>, by which a callback ends the iteration
  early, is not modelled: the callback of this file returns \<^verbatim>\<open>nil\<close> only.)
\<close>

record ReferenceIter =
  refs :: "Reference list"
  iterError :: "error option"

fun ForEach_loop ::
  "Reference list \<Rightarrow> error option \<Rightarrow> (Reference \<Rightarrow> 's \<Rightarrow> 's \<times> error option) \<Rightarrow> 's
     \<Rightarrow> 's \<times> error option" where
  "ForEach_loop [] fin cb s = (s, fin)"
| "ForEach_loop (r # rs) fin cb s =
     (case cb r s of
        (s', Some err) \<Rightarrow> (s', Some err)
      | (s', None) \<Rightarrow> ForEach_loop rs fin cb s')"

definition ForEach ::
  "ReferenceIter \<Rightarrow> (Reference \<Rightarrow> 's \<Rightarrow> 's \<times> error option) \<Rightarrow> 's \<Rightarrow> 's \<times> error option" where
  "ForEach iter cb s = ForEach_loop (refs iter) (iterError iter) cb s"

text \<open>
  \<^verbatim>\<open>git.StatusCode\<close> is a byte, with the constants below. \<^verbatim>\<open>%c\<close> of
  \<^verbatim>\<open>fmt.Sprintf\<close> prints a byte as the UTF-8 encoding of the code point of that value:
  one byte below \<^verbatim>\<open>0x80\<close>, two from there on.
\<close>

type_synonym StatusCode = char

definition Unmodified :: StatusCode where
  "Unmodified = CHR '' ''"

definition Untracked :: StatusCode where
  "Untracked = CHR ''?''"

definition Modified :: StatusCode where
  "Modified = CHR ''M''"

definition Added :: StatusCode where
  "Added = CHR ''A''"

definition Deleted :: StatusCode where
  "Deleted = CHR ''D''"

definition Renamed :: StatusCode where
  "Renamed = CHR ''R''"

definition Copied :: StatusCode where
  "Copied = CHR ''C''"

definition UpdatedButUnmerged :: StatusCode where
  "UpdatedButUnmerged = CHR ''U''"

definition fmt_c :: "StatusCode \<Rightarrow> string" where
  "fmt_c c =
     (let n = of_char c :: nat
      in if n < 0x80 then [c]
         else [char_of (0xC0 + n div 0x40), char_of (0x80 + n mod 0x40)])"

record FileStatus =
  Staging :: StatusCode
  Worktree :: StatusCode
  Extra :: string

text \<open>
  \<^verbatim>\<open>git.Status\<close> is \<^verbatim>\<open>map[string]*FileStatus\<close>. A \<^verbatim>\<open>range\<close> over a Go map visits
  the entries in an order that is not specified: the list is the map together with the
  order in which this run meets its entries, its keys distinct, \<^verbatim>\<open>status[path]\<close> is
  \<^const>\<open>map_of\<close>.
\<close>

type_synonym Status = "(string \<times> FileStatus) list"

text \<open>
  Modelled from the spec: \<^verbatim>\<open>Status.IsClean\<close> is go-git's, not a function of this
  file. The specification calls a tree clean when the working tree exactly matches the
  committed state, a status with zero changed entries. In go-git the \<^verbatim>\<open>Staging\<close> code
  compares the index with the commit and the \<^verbatim>\<open>Worktree\<close> code the working tree with the
  index, and \<^verbatim>\<open>IsClean\<close> returns false at the first entry with either code other than
  \<^verbatim>\<open>Unmodified\<close>.
\<close>

definition IsClean :: "Status \<Rightarrow> bool" where
  "IsClean s =
     list_all (\<lambda>(path, status). \<not> (Worktree status \<noteq> Unmodified \<or> Staging status \<noteq> Unmodified)) s"

text \<open>
  A file of the worktree's filesystem once opened: the bytes a reader gets, then the end of
  the file or a read error. \<^verbatim>\<open>io.Copy(h, f)\<close> writes what it reads to \<open>h\<close> and returns
  the read error, if any.
\<close>

record File =
  contents :: "byte list"
  readError :: "error option"

definition io_Copy :: "digest \<Rightarrow> File \<Rightarrow> digest \<times> error option" where
  "io_Copy h f =
     (case digest_Write h (contents f) of
        (h', Some err) \<Rightarrow> (h', Some err)
      | (h', None) \<Rightarrow> (h', readError f))"

text \<open>
  What the calls on a \<^verbatim>\<open>git.Worktree\<close> and a \<^verbatim>\<open>git.Repository\<close> return:
  \<^verbatim>\<open>w.Status()\<close>, \<^verbatim>\<open>w.Filesystem.Open(path)\<close>, \<^verbatim>\<open>repo.Worktree()\<close>,
  \<^verbatim>\<open>repo.Head()\<close>, \<^verbatim>\<open>repo.Tags()\<close>. The code checks the error of each call but
  that of \<^verbatim>\<open>repo.Tags()\<close>, whose result is therefore kept as Go's pair: the iterator,
  \<^verbatim>\<open>nil\<close> (\<open>None\<close>) when the library fails, and the error.
\<close>

record git_Worktree =
  Worktree_Status :: "error + Status"
  Filesystem_Open :: "string \<Rightarrow> error + File"

record Repository =
  Repository_Worktree :: "error + git_Worktree"
  Head :: "error + Reference"
  Tags :: "ReferenceIter option \<times> error option"

record Options =
  ImageName :: string

subsection \<open>\<^verbatim>\<open>changedPaths\<close>\<close>

text \<open>The \<^verbatim>\<open>range\<close> loop, appending to \<^verbatim>\<open>changes\<close>; then \<^verbatim>\<open>sort.Strings\<close>.\<close>

fun changedPaths_loop :: "Status \<Rightarrow> string list \<Rightarrow> string list" where
  "changedPaths_loop [] changes = changes"
| "changedPaths_loop ((path, change) # rest) changes =
     (if Worktree change \<noteq> Unmodified
      then changedPaths_loop rest (changes @ [path])
      else changedPaths_loop rest changes)"

definition changedPaths :: "Status \<Rightarrow> string list" where
  "changedPaths status = sort (changedPaths_loop status [])"

subsection \<open>\<^verbatim>\<open>GenerateFullyQualifiedImageName\<close>\<close>

text \<open>
  The callback handed to \<^verbatim>\<open>tagrefs.ForEach\<close>: it assigns to \<^verbatim>\<open>currentTag\<close> and
  returns \<^verbatim>\<open>nil\<close>.
\<close>

definition tag_callback :: "Reference \<Rightarrow> Reference \<Rightarrow> string \<Rightarrow> string \<times> error option" where
  "tag_callback head t currentTag =
     (if Hash t = Hash head then (Short (Name t), None) else (currentTag, None))"

text \<open>
  The loop over \<^verbatim>\<open>changedPaths(status)\<close>: \<open>Inr\<close> the digest after the last path,
  \<open>Inl\<close> what the function returns from inside the loop. \<^verbatim>\<open>status[changedPath]\<close> of a
  path that is no key is a \<^verbatim>\<open>nil\<close> pointer, and reading its field panics.
\<close>

fun hashChanges ::
  "git_Worktree \<Rightarrow> Status \<Rightarrow> string list \<Rightarrow> digest \<Rightarrow> outcome + digest" where
  "hashChanges w status [] h = Inr h"
| "hashChanges w status (changedPath # rest) h =
     (case map_of status changedPath of
        None \<Rightarrow> Inl (Panic NilDereference)
      | Some entry \<Rightarrow>
          (let st = Worktree entry;
               statusLine = fmt_c st @ '' '' @ changedPath
           in case digest_Write h (bytes statusLine) of
                (h1, Some err) \<Rightarrow> Inl (Return [] (Some (Wrap err ''adding deleted file to diff'')))
              | (h1, None) \<Rightarrow>
                  if st = Deleted then hashChanges w status rest h1
                  else
                    (case Filesystem_Open w changedPath of
                       Inl err \<Rightarrow> Inl (Return [] (Some (Wrap err ''reading diff'')))
                     | Inr f \<Rightarrow>
                         (case io_Copy h1 f of
                            (h2, Some err) \<Rightarrow> Inl (Return [] (Some (Wrap err ''reading diff'')))
                          | (h2, None) \<Rightarrow> hashChanges w status rest h2))))"

text \<open>
  The function. \<open>PlainOpenWithOptions\<close> is what \<^verbatim>\<open>git.PlainOpenWithOptions\<close> returns
  for a working directory (with \<^verbatim>\<open>DetectDotGit\<close>, as the code asks); the receiver is an
  empty struct, and \<^verbatim>\<open>opts\<close> is taken as the struct it points to.
\<close>

definition GenerateFullyQualifiedImageName ::
  "(string \<Rightarrow> error + Repository) \<Rightarrow> string \<Rightarrow> Options \<Rightarrow> outcome" where
  "GenerateFullyQualifiedImageName PlainOpenWithOptions workingDir opts =
     (case PlainOpenWithOptions workingDir of
        Inl err \<Rightarrow> Return [] (Some (Wrap err ''opening git repo''))
      | Inr repo \<Rightarrow>
     (case Repository_Worktree repo of
        Inl err \<Rightarrow> Return [] (Some (Wrap err ''reading worktree''))
      | Inr w \<Rightarrow>
     (case Worktree_Status w of
        Inl err \<Rightarrow> Return [] (Some (Wrap err ''reading status''))
      | Inr status \<Rightarrow>
     (case Head repo of
        Inl err \<Rightarrow> Return [] (Some (Wrap err ''determining current git commit''))
      | Inr head \<Rightarrow>
     (let commitHash = Hash_String (Hash head)
      in case slice_to commitHash 7 of
        None \<Rightarrow> Panic SliceOutOfRange
      | Some currentTag \<Rightarrow>
          if IsClean status then
            (case fst (Tags repo) of
               None \<Rightarrow> Panic NilDereference
             | Some tagrefs \<Rightarrow>
                 (case ForEach tagrefs (tag_callback head) currentTag of
                    (currentTag', Some err) \<Rightarrow> Return [] (Some (Wrap err ''determining git tag''))
                  | (currentTag', None) \<Rightarrow> Return (ImageName opts @ '':'' @ currentTag') None))
          else
            (case hashChanges w status (changedPaths status) sha256_New of
               Inl early \<Rightarrow> early
             | Inr h \<Rightarrow>
                 (let sha = digest_Sum h
                  in case slice_to (EncodeToString sha) 16 of
                       None \<Rightarrow> Panic SliceOutOfRange
                     | Some shaStr \<Rightarrow>
                         Return (ImageName opts @ '':'' @ currentTag @ ''-dirty-'' @ shaStr) None)))))))"

subsection \<open>The specification's terms\<close>

text \<open>
  What the specification calls the short hash, a changed entry, the digest's input of the
  dirty case, the dirty hash and the base tag of the clean case. They are written from the
  specification's sentences, not from the code: the theorems below compare the two.
\<close>

definition shortHash :: "Reference \<Rightarrow> string" where
  "shortHash head = take 7 (Hash_String (Hash head))"

definition changed :: "string \<times> FileStatus \<Rightarrow> bool" where
  "changed = (\<lambda>(path, entry). Worktree entry \<noteq> Unmodified)"

text \<open>The bytes of the file at a path, and whether it can be opened and read to its end.\<close>

definition file_bytes :: "git_Worktree \<Rightarrow> string \<Rightarrow> byte list" where
  "file_bytes w path = (case Filesystem_Open w path of Inl err \<Rightarrow> [] | Inr f \<Rightarrow> contents f)"

definition readable :: "git_Worktree \<Rightarrow> string \<Rightarrow> bool" where
  "readable w path =
     (case Filesystem_Open w path of Inl err \<Rightarrow> False | Inr f \<Rightarrow> readError f = None)"

text \<open>
  For one changed entry: the status character, a space and the path, then the content of
  the file unless the entry is deleted.
\<close>

definition entry_input :: "git_Worktree \<Rightarrow> string \<times> FileStatus \<Rightarrow> byte list" where
  "entry_input w =
     (\<lambda>(path, entry).
        bytes (fmt_c (Worktree entry) @ '' '' @ path)
        @ (if Worktree entry = Deleted then [] else file_bytes w path))"

definition dirty_input :: "git_Worktree \<Rightarrow> Status \<Rightarrow> byte list" where
  "dirty_input w status = concat (map (entry_input w) (sort_key fst (filter changed status)))"

definition dirtyHash :: "git_Worktree \<Rightarrow> Status \<Rightarrow> string" where
  "dirtyHash w status = take 16 (EncodeToString (sha256 (dirty_input w status)))"

text \<open>
  The base tag of the clean case, read on the hashes the references hold
  (\<^verbatim>\<open>t.Hash()\<close>): the short name of the last enumerated tag whose hash is that of
  \<^verbatim>\<open>HEAD\<close>, the short hash when there is none.
\<close>

definition baseTag :: "Reference \<Rightarrow> Reference list \<Rightarrow> string" where
  "baseTag head tags =
     (case rev (filter (\<lambda>t. Hash t = Hash head) tags) of
        [] \<Rightarrow> shortHash head
      | t # earlier \<Rightarrow> Short (Name t))"

text \<open>
  The commit a tag points at. A lightweight tag is a reference that holds the hash of the
  commit. An annotated tag is an object of its own in the repository: the reference holds
  the hash of the tag object, and the tag object names what it tags. \<open>objects\<close> gives,
  for the hash of a tag object, that target; the code never reads it.
\<close>

definition targetCommit :: "(Hash \<rightharpoonup> Hash) \<Rightarrow> Reference \<Rightarrow> Hash" where
  "targetCommit objects t = (case objects (Hash t) of None \<Rightarrow> Hash t | Some commit \<Rightarrow> commit)"

text \<open>
  The base tag as the specification words it: the short name of the last enumerated tag
  whose target commit is that of \<^verbatim>\<open>HEAD\<close>, the short hash when there is none.
\<close>

definition baseTag_of_targets ::
  "(Hash \<rightharpoonup> Hash) \<Rightarrow> Reference \<Rightarrow> Reference list \<Rightarrow> string" where
  "baseTag_of_targets objects head tags =
     (case rev (filter (\<lambda>t. targetCommit objects t = Hash head) tags) of
        [] \<Rightarrow> shortHash head
      | t # earlier \<Rightarrow> Short (Name t))"

text \<open>The labels under which the function wraps the errors it returns.\<close>

definition stage_labels :: "string set" where
  "stage_labels = {''opening git repo'', ''reading worktree'', ''reading status'',
     ''determining current git commit'', ''determining git tag'', ''reading diff''}"

subsection \<open>A repository to run the code on\<close>

text \<open>
  The repository of the specification's end-to-end scenario: \<^verbatim>\<open>HEAD\<close> at commit
  \<^verbatim>\<open>abcdef1234567890...\<close>, the image \<^verbatim>\<open>myapp\<close>, with the status and the tags left
  open.
\<close>

definition ex_head :: Reference where
  "ex_head = \<lparr>Hash = 0xabcdef1234567890abcdef1234567890abcdef12,
              Name = \<lparr>Short = ''master''\<rparr>\<rparr>"

definition ex_tag :: "string \<Rightarrow> Hash \<Rightarrow> Reference" where
  "ex_tag name h = \<lparr>Hash = h, Name = \<lparr>Short = name\<rparr>\<rparr>"

definition ex_files :: "string \<Rightarrow> error + File" where
  "ex_files path =
     (if path = ''src/main.go''
      then Inr \<lparr>contents = bytes ''package main'', readError = None\<rparr>
      else Inl (LibError ''file does not exist''))"

definition ex_entry :: "StatusCode \<Rightarrow> StatusCode \<Rightarrow> FileStatus" where
  "ex_entry staging worktree = \<lparr>Staging = staging, Worktree = worktree, Extra = []\<rparr>"

definition ex_worktree :: "Status \<Rightarrow> git_Worktree" where
  "ex_worktree status = \<lparr>Worktree_Status = Inr status, Filesystem_Open = ex_files\<rparr>"

definition ex_repo :: "Status \<Rightarrow> ReferenceIter option \<times> error option \<Rightarrow> Repository" where
  "ex_repo status tags =
     \<lparr>Repository_Worktree = Inr (ex_worktree status), Head = Inr ex_head, Tags = tags\<rparr>"

definition ex_git ::
  "Status \<Rightarrow> ReferenceIter option \<times> error option \<Rightarrow> string \<Rightarrow> error + Repository" where
  "ex_git status tags workingDir =
     (if workingDir = ''/src/myapp'' then Inr (ex_repo status tags)
      else Inl (LibError ''repository does not exist''))"

definition ex_opts :: Options where
  "ex_opts = \<lparr>ImageName = ''myapp''\<rparr>"

text \<open>One file modified and one deleted, met in an order that is not the sorted one.\<close>

definition ex_dirty :: Status where
  "ex_dirty = [(''src/main.go'', ex_entry Unmodified Modified),
               (''README.md'', ex_entry Unmodified Deleted),
               (''LICENSE'', ex_entry Unmodified Unmodified)]"

text \<open>A change that is staged only.\<close>

definition ex_staged :: Status where
  "ex_staged = [(''src/main.go'', ex_entry Modified Unmodified)]"

definition ex_clean :: Status where
  "ex_clean = [(''src/main.go'', ex_entry Unmodified Unmodified)]"

text \<open>No tag at \<^verbatim>\<open>HEAD\<close>; one tag at \<^verbatim>\<open>HEAD\<close>; a tag store that cannot be read.\<close>

definition ex_tags_none :: "ReferenceIter option \<times> error option" where
  "ex_tags_none =
     (Some \<lparr>refs = [ex_tag ''v0.9.0'' 0x1111111111111111111111111111111111111111],
            iterError = None\<rparr>, None)"

definition ex_tags_one :: "ReferenceIter option \<times> error option" where
  "ex_tags_one =
     (Some \<lparr>refs = [ex_tag ''v0.9.0'' 0x1111111111111111111111111111111111111111,
                     ex_tag ''v1.2.3'' 0xabcdef1234567890abcdef1234567890abcdef12],
            iterError = None\<rparr>, None)"

text \<open>
  One annotated tag \<^verbatim>\<open>v1.2.3\<close> at \<^verbatim>\<open>HEAD\<close>: a tag object \<^verbatim>\<open>2222...\<close> whose
  target is the commit of \<^verbatim>\<open>HEAD\<close>, and the reference that holds the hash of the
  tag object.
\<close>

definition ex_tag_objects :: "Hash \<rightharpoonup> Hash" where
  "ex_tag_objects =
     [0x2222222222222222222222222222222222222222 \<mapsto> 0xabcdef1234567890abcdef1234567890abcdef12]"

definition ex_tags_annotated :: "ReferenceIter option \<times> error option" where
  "ex_tags_annotated =
     (Some \<lparr>refs = [ex_tag ''v1.2.3'' 0x2222222222222222222222222222222222222222],
            iterError = None\<rparr>, None)"

definition ex_tags_failed :: "ReferenceIter option \<times> error option" where
  "ex_tags_failed = (None, Some (LibError ''permission denied''))"

text \<open>The same files, with \<^verbatim>\<open>README.md\<close> still on disk.\<close>

definition ex_files_kept :: "string \<Rightarrow> error + File" where
  "ex_files_kept path =
     (if path = ''README.md''
      then Inr \<lparr>contents = bytes ''# myapp'', readError = None\<rparr>
      else ex_files path)"

definition ex_worktree_kept :: "Status \<Rightarrow> git_Worktree" where
  "ex_worktree_kept status = \<lparr>Worktree_Status = Inr status, Filesystem_Open = ex_files_kept\<rparr>"

text \<open>A repository whose worktree, status or \<^verbatim>\<open>HEAD\<close> cannot be read, and a file that breaks off.\<close>

definition ex_repo_no_worktree :: Repository where
  "ex_repo_no_worktree =
     \<lparr>Repository_Worktree = Inl (LibError ''worktree not available in a bare repository''),
      Head = Inr ex_head, Tags = ex_tags_none\<rparr>"

definition ex_repo_no_status :: Repository where
  "ex_repo_no_status =
     \<lparr>Repository_Worktree =
        Inr \<lparr>Worktree_Status = Inl (LibError ''index file corrupt''), Filesystem_Open = ex_files\<rparr>,
      Head = Inr ex_head, Tags = ex_tags_none\<rparr>"

definition ex_repo_no_head :: Repository where
  "ex_repo_no_head =
     \<lparr>Repository_Worktree = Inr (ex_worktree ex_clean),
      Head = Inl (LibError ''reference not found''), Tags = ex_tags_none\<rparr>"

definition ex_tags_broken :: "ReferenceIter option \<times> error option" where
  "ex_tags_broken =
     (Some \<lparr>refs = [ex_tag ''v1.2.3'' 0xabcdef1234567890abcdef1234567890abcdef12],
            iterError = Some (LibError ''unexpected EOF'')\<rparr>, None)"

definition ex_unreadable :: Status where
  "ex_unreadable = [(''README.md'', ex_entry Unmodified Modified)]"

section \<open>Properties\<close>

subsection \<open>Hexadecimal strings and digests\<close>

lemmas StatusCode_defs =
  Unmodified_def Untracked_def Modified_def Added_def Deleted_def Renamed_def Copied_def
  UpdatedButUnmerged_def

text \<open>The status characters of the short format, as \<^verbatim>\<open>%c\<close> prints them.\<close>

lemma fmt_c_codes:
  "fmt_c Unmodified = '' ''" "fmt_c Untracked = ''?''" "fmt_c Modified = ''M''"
  "fmt_c Added = ''A''" "fmt_c Deleted = ''D''" "fmt_c Renamed = ''R''"
  "fmt_c Copied = ''C''" "fmt_c UpdatedButUnmerged = ''U''"
  by (simp_all add: fmt_c_def StatusCode_defs)

lemma length_EncodeToString: "length (EncodeToString src) = 2 * length src"
  by (induction src) (simp_all add: EncodeToString_def)

lemma length_Hash_String: "length (Hash_String h) = 40"
  by (simp add: Hash_String_def length_EncodeToString Hash_bytes_def)

lemma length_round256: "length s = 8 \<Longrightarrow> length (round256 s kw) = 8"
  by (cases "(s, kw)" rule: round256.cases) (simp_all add: Let_def)

lemma length_foldl_round256: "length s = 8 \<Longrightarrow> length (foldl round256 s kws) = 8"
  by (induction kws arbitrary: s) (simp_all add: length_round256)

lemma length_block256: "length s = 8 \<Longrightarrow> length (block256 s blk) = 8"
  by (simp add: block256_def length_foldl_round256)

lemma length_blocks256: "length s = 8 \<Longrightarrow> length (blocks256 s bs) = 8"
proof (induction s bs rule: blocks256.induct)
  case (1 s bs)
  show ?case
  proof (cases "length bs < 64")
    case True
    then show ?thesis using "1.prems" by (simp add: blocks256.simps)
  next
    case False
    then show ?thesis
      using "1.IH" [OF False] "1.prems" by (subst blocks256.simps) (simp add: length_block256)
  qed
qed

lemma length_concat_unbe32: "length (concat (map unbe32 ws)) = 4 * length ws"
  by (induction ws) (simp_all add: unbe32_def)

lemma length_sha256: "length (sha256 m) = 32"
  by (simp add: sha256_def length_concat_unbe32 length_blocks256 init256_def)

lemma nibble_hi: "unat (drop_bit 4 (v :: byte)) < 16"
proof -
  have "unat v < 2 ^ 8" using unsigned_less [of v, where ?'a = nat] by simp
  then have "unat v div 2 ^ 4 < 16" by simp
  then show ?thesis by (simp add: drop_bit_eq_div unat_div)
qed

lemma nibble_lo: "unat ((v :: byte) AND 0x0f) < 16"
proof -
  have "v AND 0x0f \<le> 0x0f" by (rule word_and_le1)
  then have "unat (v AND 0x0f) \<le> 15" by (simp add: word_le_nat_alt)
  then show ?thesis by simp
qed

lemma hextable_nth: "n < 16 \<Longrightarrow> hextable ! n \<in> set hextable"
  by (rule nth_mem) (simp add: hextable_def)

lemma set_EncodeToString: "set (EncodeToString src) \<subseteq> set hextable"
  by (induction src) (simp_all add: EncodeToString_def hextable_nth nibble_hi nibble_lo)

lemma slice_to_Hash_String: "slice_to (Hash_String h) 7 = Some (take 7 (Hash_String h))"
  by (simp add: slice_to_def length_Hash_String)

lemma slice_to_digest:
  "slice_to (EncodeToString (digest_Sum d)) 16 = Some (take 16 (EncodeToString (digest_Sum d)))"
  by (simp add: slice_to_def length_EncodeToString digest_Sum_def length_sha256)

text \<open>Two digests, computed: of the empty input and of the input of the example below.\<close>

lemma sha256_empty:
  "EncodeToString (sha256 []) =
     ''e3b0c44298fc1c149afbf4c8996fb92427ae41e4649b934ca495991b7852b855''"
  by code_simp

lemma sha256_ex_dirty:
  "take 16 (EncodeToString (sha256 (bytes ''D README.mdM src/main.gopackage main''))) =
     ''21403f74602917df''"
  by code_simp

subsection \<open>The two loops\<close>

lemma changedPaths_loop_eq:
  "changedPaths_loop status changes =
     changes @ map fst (filter (\<lambda>(path, change). Worktree change \<noteq> Unmodified) status)"
  by (induction status changes rule: changedPaths_loop.induct) simp_all

lemma hashChanges_map_of:
  "map_of status = map_of status' \<Longrightarrow> hashChanges w status ps h = hashChanges w status' ps h"
  by (induction ps arbitrary: h) (simp_all add: Let_def split: option.splits prod.splits sum.splits)


lemma hashChanges_files:
  "Filesystem_Open w' = Filesystem_Open w \<Longrightarrow>
   hashChanges w' status ps h = hashChanges w status ps h"
  by (induction ps arbitrary: h) (simp_all add: Let_def split: option.splits prod.splits sum.splits)

lemma sort_cong_mset: "mset xs = mset ys \<Longrightarrow> sort xs = sort (ys :: 'a :: linorder list)"
  by (rule properties_for_sort) simp_all

lemma changedPaths_eq:
  "changedPaths status = sort (map fst (filter (\<lambda>(path, change). Worktree change \<noteq> Unmodified) status))"
  by (simp add: changedPaths_def changedPaths_loop_eq)

lemma changedPaths_perm:
  assumes "mset status' = mset status"
  shows "changedPaths status' = changedPaths status"
proof -
  let ?P = "\<lambda>(path, change). Worktree change \<noteq> Unmodified"
  have "mset (map fst (filter ?P status')) = mset (map fst (filter ?P status))"
    using assms by simp
  then show ?thesis unfolding changedPaths_eq by (rule sort_cong_mset)
qed

lemma map_of_perm:
  assumes "mset status' = mset status" and "distinct (map fst status)"
  shows "map_of status' = map_of status"
proof -
  have "mset (map fst status') = mset (map fst status)"
    using assms(1) by simp
  then have "distinct (map fst status')"
    using assms(2) by (metis mset_eq_imp_distinct_iff)
  moreover have "set status' = set status"
    using assms(1) by (rule mset_eq_setD)
  ultimately show ?thesis
    using assms(2) by (simp add: map_of_inject_set)
qed

lemma IsClean_perm:
  assumes "mset status' = mset status"
  shows "IsClean status' = IsClean status"
proof -
  have "set status' = set status" using assms by (rule mset_eq_setD)
  then show ?thesis by (simp add: IsClean_def list_all_iff)
qed

lemma map_fst_sort_key: "map fst (sort_key fst xs) = sort (map fst xs)"
  by (rule properties_for_sort [symmetric]) (simp_all add: sorted_sort_key)

lemma changedPaths_sort_key: "changedPaths status = map fst (sort_key fst (filter changed status))"
  by (simp add: changedPaths_eq map_fst_sort_key changed_def)

lemma set_changedPaths: "set (changedPaths status) = fst ` {e \<in> set status. changed e}"
  by (simp add: changedPaths_sort_key)

lemma sorted_changedPaths: "sorted (changedPaths status)"
  by (simp add: changedPaths_def)

lemma IsClean_iff:
  "IsClean status \<longleftrightarrow>
     (\<forall>(path, entry) \<in> set status. Worktree entry = Unmodified \<and> Staging entry = Unmodified)"
  by (auto simp: IsClean_def list_all_iff)

lemma changed_not_clean: "e \<in> set status \<Longrightarrow> changed e \<Longrightarrow> \<not> IsClean status"
  by (auto simp: IsClean_iff changed_def)

lemma hashChanges_Deleted:
  assumes "map_of status path = Some entry" and "Worktree entry = Deleted"
  shows "hashChanges w status (path # rest) h =
           hashChanges w status rest (h @ bytes (''D '' @ path))"
  using assms by (simp add: Let_def digest_Write_def fmt_c_def Deleted_def)

lemma hashChanges_read:
  assumes "map_of status path = Some entry" and "Worktree entry \<noteq> Deleted"
    and "Filesystem_Open w path = Inr f" and "readError f = None"
  shows "hashChanges w status (path # rest) h =
           hashChanges w status rest (h @ bytes (fmt_c (Worktree entry) @ '' '' @ path) @ contents f)"
  using assms by (simp add: Let_def digest_Write_def io_Copy_def)

lemma readableE:
  assumes "readable w path"
  obtains f where "Filesystem_Open w path = Inr f" and "readError f = None"
  using assms by (auto simp: readable_def split: sum.splits)

lemma hashChanges_readable:
  assumes "\<forall>path \<in> set ps. \<exists>entry. map_of status path = Some entry
              \<and> (Worktree entry \<noteq> Deleted \<longrightarrow> readable w path)"
  shows "hashChanges w status ps h =
           Inr (h @ concat (map (\<lambda>path. entry_input w (path, the (map_of status path))) ps))"
  using assms
proof (induction ps arbitrary: h)
  case Nil
  show ?case by simp
next
  case (Cons path ps)
  from Cons.prems obtain entry where
    entry: "map_of status path = Some entry"
    and rd: "Worktree entry \<noteq> Deleted \<Longrightarrow> readable w path"
    by auto
  have rest: "\<forall>path \<in> set ps. \<exists>entry. map_of status path = Some entry
              \<and> (Worktree entry \<noteq> Deleted \<longrightarrow> readable w path)"
    using Cons.prems by simp
  show ?case
  proof (cases "Worktree entry = Deleted")
    case True
    show ?thesis
      by (simp only: hashChanges_Deleted [OF entry True] Cons.IH [OF rest])
         (simp add: entry entry_input_def True fmt_c_def Deleted_def)
  next
    case False
    from rd [OF False] obtain f where
      f: "Filesystem_Open w path = Inr f" "readError f = None"
      by (rule readableE)
    show ?thesis
      by (simp only: hashChanges_read [OF entry False f] Cons.IH [OF rest])
         (simp add: entry entry_input_def False file_bytes_def f)
  qed
qed

lemma map_of_entry:
  "distinct (map fst status) \<Longrightarrow> (path, entry) \<in> set status \<Longrightarrow> map_of status path = Some entry"
  by simp

lemma dirty_input_lookup:
  assumes "distinct (map fst status)"
  shows "concat (map (\<lambda>path. entry_input w (path, the (map_of status path))) (changedPaths status))
           = dirty_input w status"
proof -
  have "map (\<lambda>path. entry_input w (path, the (map_of status path)))
            (map fst (sort_key fst (filter changed status)))
          = map (entry_input w) (sort_key fst (filter changed status))"
    unfolding map_map
  proof (rule map_cong [OF refl])
    fix e assume "e \<in> set (sort_key fst (filter changed status))"
    then have "(fst e, snd e) \<in> set status" by simp
    then have "map_of status (fst e) = Some (snd e)"
      using assms by (rule map_of_entry [rotated])
    then show "((\<lambda>path. entry_input w (path, the (map_of status path))) \<circ> fst) e = entry_input w e"
      by simp
  qed
  then show ?thesis by (simp only: changedPaths_sort_key dirty_input_def)
qed

lemma hashChanges_dirty_input:
  assumes "distinct (map fst status)"
    and "\<forall>(path, entry) \<in> set status.
           changed (path, entry) \<and> Worktree entry \<noteq> Deleted \<longrightarrow> readable w path"
  shows "hashChanges w status (changedPaths status) h = Inr (h @ dirty_input w status)"
proof -
  have "\<forall>path \<in> set (changedPaths status). \<exists>entry. map_of status path = Some entry
              \<and> (Worktree entry \<noteq> Deleted \<longrightarrow> readable w path)"
  proof
    fix path assume "path \<in> set (changedPaths status)"
    then obtain entry where e: "(path, entry) \<in> set status" "changed (path, entry)"
      by (auto simp: set_changedPaths)
    with assms(2) have "Worktree entry \<noteq> Deleted \<longrightarrow> readable w path" by auto
    moreover have "map_of status path = Some entry"
      using assms(1) e(1) by (rule map_of_entry)
    ultimately show "\<exists>entry. map_of status path = Some entry
              \<and> (Worktree entry \<noteq> Deleted \<longrightarrow> readable w path)" by simp
  qed
  then show ?thesis
    by (simp add: hashChanges_readable dirty_input_lookup [OF assms(1)])
qed

lemma ForEach_tag_callback:
  "ForEach_loop tags fin (tag_callback head) currentTag =
     (case rev (filter (\<lambda>t. Hash t = Hash head) tags) of
        [] \<Rightarrow> currentTag
      | t # earlier \<Rightarrow> Short (Name t), fin)"
  by (induction tags arbitrary: currentTag) (simp_all add: tag_callback_def split: list.splits)

lemma ForEach_baseTag:
  "ForEach_loop tags fin (tag_callback head) (shortHash head) = (baseTag head tags, fin)"
  by (simp add: ForEach_tag_callback baseTag_def)

subsection \<open>The function, case by case\<close>

lemma clean_outcome:
  assumes "PlainOpenWithOptions workingDir = Inr repo"
    and "Repository_Worktree repo = Inr w"
    and "Worktree_Status w = Inr status"
    and "Head repo = Inr head"
    and "IsClean status"
  shows "GenerateFullyQualifiedImageName PlainOpenWithOptions workingDir opts =
    (case fst (Tags repo) of
       None \<Rightarrow> Panic NilDereference
     | Some tagrefs \<Rightarrow>
         (case iterError tagrefs of
            Some err \<Rightarrow> Return [] (Some (Wrap err ''determining git tag''))
          | None \<Rightarrow> Return (ImageName opts @ '':'' @ baseTag head (refs tagrefs)) None))"
  using assms
  by (simp add: GenerateFullyQualifiedImageName_def slice_to_Hash_String ForEach_def
      shortHash_def [symmetric] ForEach_baseTag split: option.splits)

lemma dirty_outcome:
  assumes "PlainOpenWithOptions workingDir = Inr repo"
    and "Repository_Worktree repo = Inr w"
    and "Worktree_Status w = Inr status"
    and "Head repo = Inr head"
    and "\<not> IsClean status"
  shows "GenerateFullyQualifiedImageName PlainOpenWithOptions workingDir opts =
    (case hashChanges w status (changedPaths status) [] of
       Inl early \<Rightarrow> early
     | Inr h \<Rightarrow>
         Return (ImageName opts @ '':'' @ take 7 (Hash_String (Hash head)) @ ''-dirty-''
                 @ take 16 (EncodeToString (sha256 h))) None)"
  using assms
  by (simp add: GenerateFullyQualifiedImageName_def slice_to_Hash_String sha256_New_def
      slice_to_digest digest_Sum_def [symmetric] split: sum.splits)

subsection \<open>The dirty case\<close>

text \<open>
  C1. When the status has an entry with a code that is not unmodified, and every changed
  file that is not deleted can be read, the function returns the image name, a colon, the
  short hash, \<^verbatim>\<open>-dirty-\<close> and the first 16 hexadecimal characters of the SHA-256 digest
  of \<open>dirty_input\<close>: for each changed entry in the order of the paths, the status
  character, a space, the path and, unless the entry is deleted, the bytes of the file.
\<close>

theorem dirty_tag:
  assumes "PlainOpenWithOptions workingDir = Inr repo"
    and "Repository_Worktree repo = Inr w"
    and "Worktree_Status w = Inr status"
    and "Head repo = Inr head"
    and "distinct (map fst status)"
    and "\<exists>(path, entry) \<in> set status.
           Worktree entry \<noteq> Unmodified \<or> Staging entry \<noteq> Unmodified"
    and "\<forall>(path, entry) \<in> set status.
           changed (path, entry) \<and> Worktree entry \<noteq> Deleted \<longrightarrow> readable w path"
  shows "GenerateFullyQualifiedImageName PlainOpenWithOptions workingDir opts =
           Return (ImageName opts @ '':'' @ take 7 (Hash_String (Hash head)) @ ''-dirty-''
                   @ take 16 (EncodeToString (sha256 (dirty_input w status)))) None"
proof -
  from assms(6) have "\<not> IsClean status"
    by (auto simp: IsClean_iff)
  then show ?thesis
    by (simp add: hashChanges_dirty_input [OF assms(5,7)]
        dirty_outcome [where PlainOpenWithOptions = PlainOpenWithOptions
          and workingDir = workingDir, OF assms(1-4)])
qed

lemma ex_dirty_input:
  "dirty_input (ex_worktree ex_dirty) ex_dirty = bytes ''D README.mdM src/main.gopackage main''"
  by (simp add: dirty_input_def ex_dirty_def ex_entry_def StatusCode_defs changed_def
      entry_input_def fmt_c_def file_bytes_def ex_worktree_def ex_files_def bytes_def)

lemma ex_shortHash: "take 7 (Hash_String (Hash ex_head)) = ''abcdef1''"
  by (simp add: Hash_String_def Hash_bytes_def ex_head_def EncodeToString_def hextable_def upt_rec)

theorem dirty_tag_witness:
  "GenerateFullyQualifiedImageName (ex_git ex_dirty ex_tags_none) ''/src/myapp'' ex_opts =
     Return ''myapp:abcdef1-dirty-21403f74602917df'' None"
proof -
  have 1: "ex_git ex_dirty ex_tags_none ''/src/myapp'' = Inr (ex_repo ex_dirty ex_tags_none)"
    by (simp add: ex_git_def)
  have 2: "Repository_Worktree (ex_repo ex_dirty ex_tags_none) = Inr (ex_worktree ex_dirty)"
    by (simp add: ex_repo_def)
  have 3: "Worktree_Status (ex_worktree ex_dirty) = Inr ex_dirty"
    by (simp add: ex_worktree_def)
  have 4: "Head (ex_repo ex_dirty ex_tags_none) = Inr ex_head"
    by (simp add: ex_repo_def)
  have 5: "distinct (map fst ex_dirty)"
    by (simp add: ex_dirty_def)
  have 6: "\<exists>(path, entry) \<in> set ex_dirty.
           Worktree entry \<noteq> Unmodified \<or> Staging entry \<noteq> Unmodified"
    by (simp add: ex_dirty_def ex_entry_def StatusCode_defs)
  have 7: "\<forall>(path, entry) \<in> set ex_dirty.
           changed (path, entry) \<and> Worktree entry \<noteq> Deleted \<longrightarrow> readable (ex_worktree ex_dirty) path"
    by (simp add: ex_dirty_def changed_def ex_entry_def StatusCode_defs readable_def
        ex_worktree_def ex_files_def)
  show ?thesis
    using dirty_tag [where PlainOpenWithOptions = "ex_git ex_dirty ex_tags_none"
        and workingDir = "''/src/myapp''" and opts = ex_opts, OF 1 2 3 4 5 6 7]
    by (simp add: ex_dirty_input ex_shortHash ex_opts_def sha256_ex_dirty)
qed

subsection \<open>The order of the status map\<close>

text \<open>
  Strings are compared byte by byte, a proper prefix before its extensions; bytes by their
  unsigned value.
\<close>

lemma string_less_bytewise:
  "([] :: string) < d # t"
  "\<not> c # s < ([] :: string)"
  "c # s < d # t \<longleftrightarrow> (of_char c :: nat) < of_char d \<or> c = d \<and> s < t"
  by (auto simp: less_char_def)

lemma sort_key_fst_perm:
  assumes "mset xs = mset ys" and "distinct (map fst ys)"
  shows "sort_key fst xs = sort_key fst ys"
proof (rule sort_key_inj_key_eq)
  show "mset xs = mset (sort_key fst ys)"
    using assms(1) by simp
  have "set xs = set ys"
    using assms(1) by (rule mset_eq_setD)
  then show "inj_on fst (set xs)"
    using assms(2) by (simp add: distinct_map)
  show "sorted (map fst (sort_key fst ys))"
    by (rule sorted_sort_key)
qed

text \<open>
  C3. Two enumerations of one status map are permutations of each other. The changed
  paths of both are the same list: the paths of the entries whose worktree code is not
  unmodified, sorted in the byte-wise order of strings. The digest fed from them is the
  same, and so is the dirty hash.
\<close>

theorem order_independence:
  assumes "distinct (map fst status)" and "mset status' = mset status"
  shows "changedPaths status' = changedPaths status
       \<and> sorted (changedPaths status)
       \<and> set (changedPaths status) = fst ` {e \<in> set status. changed e}
       \<and> hashChanges w status' (changedPaths status') h
           = hashChanges w status (changedPaths status) h
       \<and> dirtyHash w status' = dirtyHash w status"
proof -
  have paths: "changedPaths status' = changedPaths status"
    using assms(2) by (rule changedPaths_perm)
  have lookup: "map_of status' = map_of status"
    using assms(2,1) by (rule map_of_perm)
  have "mset (filter changed status') = mset (filter changed status)"
    using assms(2) by simp
  moreover have "distinct (map fst (filter changed status))"
    using assms(1) by (rule distinct_map_filter)
  ultimately have "sort_key fst (filter changed status') = sort_key fst (filter changed status)"
    by (rule sort_key_fst_perm)
  then have "dirtyHash w status' = dirtyHash w status"
    by (simp add: dirtyHash_def dirty_input_def)
  then show ?thesis
    by (simp add: paths hashChanges_map_of [OF lookup] sorted_changedPaths set_changedPaths)
qed

theorem order_independence_witness:
  "changedPaths (rev ex_dirty) = changedPaths ex_dirty
   \<and> changedPaths ex_dirty = [''README.md'', ''src/main.go'']
   \<and> hashChanges (ex_worktree ex_dirty) (rev ex_dirty) (changedPaths (rev ex_dirty)) []
       = hashChanges (ex_worktree ex_dirty) ex_dirty (changedPaths ex_dirty) []
   \<and> dirtyHash (ex_worktree ex_dirty) (rev ex_dirty) = dirtyHash (ex_worktree ex_dirty) ex_dirty"
proof -
  have 1: "distinct (map fst ex_dirty)"
    by (simp add: ex_dirty_def)
  have 2: "mset (rev ex_dirty) = mset ex_dirty"
    by simp
  have 3: "changedPaths ex_dirty = [''README.md'', ''src/main.go'']"
    by (simp add: changedPaths_def ex_dirty_def ex_entry_def StatusCode_defs)
  show ?thesis
    using order_independence [OF 1 2, of "ex_worktree ex_dirty" "[]"] 3 by blast
qed

subsection \<open>Determinism\<close>

text \<open>
  C4. Two calls on the same working directory, image name, repository and files, which
  meet the entries of the same status map in whatever two orders, return the same: the
  same tag, or the same error. This holds for a dirty tree as for a clean one.
\<close>

theorem deterministic:
  assumes "PlainOpenWithOptions workingDir = Inr repo"
    and "PlainOpenWithOptions' workingDir = Inr repo'"
    and "Repository_Worktree repo = Inr w"
    and "Repository_Worktree repo' = Inr w'"
    and "Head repo' = Head repo"
    and "Tags repo' = Tags repo"
    and "Filesystem_Open w' = Filesystem_Open w"
    and "Worktree_Status w = Inr status"
    and "Worktree_Status w' = Inr status'"
    and "distinct (map fst status)"
    and "mset status' = mset status"
  shows "GenerateFullyQualifiedImageName PlainOpenWithOptions' workingDir opts =
         GenerateFullyQualifiedImageName PlainOpenWithOptions workingDir opts"
proof -
  have paths: "changedPaths status' = changedPaths status"
    using assms(11) by (rule changedPaths_perm)
  have lookup: "map_of status' = map_of status"
    using assms(11,10) by (rule map_of_perm)
  have clean: "IsClean status' = IsClean status"
    using assms(11) by (rule IsClean_perm)
  have files: "hashChanges w' st ps h = hashChanges w st ps h" for st ps h
    using assms(7) by (rule hashChanges_files)
  show ?thesis
  proof (cases "Head repo")
    case (Inl err)
    then show ?thesis
      by (simp add: GenerateFullyQualifiedImageName_def assms(1-6,8,9))
  next
    case (Inr head)
    then have head': "Head repo' = Inr head"
      by (simp add: assms(5))
    show ?thesis
    proof (cases "IsClean status")
      case True
      then have "IsClean status'" by (simp add: clean)
      then show ?thesis
        using True
        by (simp add: assms(6)
            clean_outcome [where PlainOpenWithOptions = PlainOpenWithOptions
              and workingDir = workingDir, OF assms(1,3,8) Inr]
            clean_outcome [where PlainOpenWithOptions = PlainOpenWithOptions'
              and workingDir = workingDir, OF assms(2,4,9) head'])
    next
      case False
      then have "\<not> IsClean status'" by (simp add: clean)
      then show ?thesis
        using False
        by (simp add: paths files hashChanges_map_of [OF lookup]
            dirty_outcome [where PlainOpenWithOptions = PlainOpenWithOptions
              and workingDir = workingDir, OF assms(1,3,8) Inr]
            dirty_outcome [where PlainOpenWithOptions = PlainOpenWithOptions'
              and workingDir = workingDir, OF assms(2,4,9) head'])
    qed
  qed
qed

lemma ex_opened:
  "ex_git status tags ''/src/myapp'' = Inr (ex_repo status tags)"
  "Repository_Worktree (ex_repo status tags) = Inr (ex_worktree status)"
  "Worktree_Status (ex_worktree status) = Inr status"
  "Head (ex_repo status tags) = Inr ex_head"
  "Tags (ex_repo status tags) = tags"
  "Filesystem_Open (ex_worktree status) = ex_files"
  by (simp_all add: ex_git_def ex_repo_def ex_worktree_def)

theorem deterministic_witness:
  "GenerateFullyQualifiedImageName (ex_git (rev ex_dirty) ex_tags_none) ''/src/myapp'' ex_opts =
   GenerateFullyQualifiedImageName (ex_git ex_dirty ex_tags_none) ''/src/myapp'' ex_opts"
proof -
  have 1: "distinct (map fst ex_dirty)"
    by (simp add: ex_dirty_def)
  have 2: "mset (rev ex_dirty) = mset ex_dirty"
    by simp
  have 3: "Head (ex_repo (rev ex_dirty) ex_tags_none) = Head (ex_repo ex_dirty ex_tags_none)"
    by (simp add: ex_opened)
  have 4: "Tags (ex_repo (rev ex_dirty) ex_tags_none) = Tags (ex_repo ex_dirty ex_tags_none)"
    by (simp add: ex_opened)
  have 5: "Filesystem_Open (ex_worktree (rev ex_dirty)) = Filesystem_Open (ex_worktree ex_dirty)"
    by (simp add: ex_opened)
  show ?thesis
    by (rule deterministic [where PlainOpenWithOptions = "ex_git ex_dirty ex_tags_none"
          and PlainOpenWithOptions' = "ex_git (rev ex_dirty) ex_tags_none",
          OF ex_opened(1) ex_opened(1) ex_opened(2) ex_opened(2) 3 4 5 ex_opened(3) ex_opened(3) 1 2])
qed

subsection \<open>Deleted files\<close>

text \<open>
  C5. At a changed path whose worktree code is deleted, the loop writes the status line
  \<^verbatim>\<open>D\<close>, a space and the path to the digest and goes on to the next path: the
  filesystem is not asked for the file. Hence the loop yields the same on any two
  filesystems that differ at deleted paths only, one where opening them fails included,
  and the line of a deleted path is part of what is hashed.
\<close>

theorem deleted_not_read:
  assumes "map_of status path = Some entry" and "Worktree entry = Deleted"
    and "\<forall>p. Filesystem_Open w' p \<noteq> Filesystem_Open w p
           \<longrightarrow> (\<exists>e. map_of status p = Some e \<and> Worktree e = Deleted)"
  shows "hashChanges w status (path # rest) h
           = hashChanges w status rest (h @ bytes (''D '' @ path))
       \<and> hashChanges w' status ps h = hashChanges w status ps h"
proof -
  have line: "hashChanges w status (path # rest) h
           = hashChanges w status rest (h @ bytes (''D '' @ path))"
    using assms(1,2) by (rule hashChanges_Deleted)
  have "hashChanges w' status ps h = hashChanges w status ps h"
    using assms(3)
  proof (induction ps arbitrary: h)
    case Nil
    show ?case by simp
  next
    case (Cons p ps)
    show ?case
    proof (cases "map_of status p")
      case None
      then show ?thesis by simp
    next
      case (Some e)
      show ?thesis
      proof (cases "Worktree e = Deleted")
        case True
        then show ?thesis
          using Some Cons by (simp add: Let_def digest_Write_def)
      next
        case False
        with Some Cons.prems have "Filesystem_Open w' p = Filesystem_Open w p"
          by auto
        then show ?thesis
          using Some False Cons
          by (simp add: Let_def digest_Write_def split: sum.splits prod.splits option.splits)
      qed
    qed
  qed
  with line show ?thesis
    by (rule conjI)
qed

theorem deleted_not_read_witness:
  "hashChanges (ex_worktree ex_dirty) ex_dirty [''README.md'', ''src/main.go''] []
     = hashChanges (ex_worktree ex_dirty) ex_dirty [''src/main.go''] (bytes ''D README.md'')
   \<and> hashChanges (ex_worktree_kept ex_dirty) ex_dirty [''README.md'', ''src/main.go''] []
     = hashChanges (ex_worktree ex_dirty) ex_dirty [''README.md'', ''src/main.go''] []
   \<and> Filesystem_Open (ex_worktree ex_dirty) ''README.md'' = Inl (LibError ''file does not exist'')
   \<and> hashChanges (ex_worktree ex_dirty) ex_dirty [''README.md'', ''src/main.go''] []
     = Inr (bytes ''D README.mdM src/main.gopackage main'')"
proof -
  have 1: "map_of ex_dirty ''README.md'' = Some (ex_entry Unmodified Deleted)"
    by (simp add: ex_dirty_def)
  have 2: "Worktree (ex_entry Unmodified Deleted) = Deleted"
    by (simp add: ex_entry_def)
  have 3: "\<forall>p. Filesystem_Open (ex_worktree_kept ex_dirty) p \<noteq> Filesystem_Open (ex_worktree ex_dirty) p
           \<longrightarrow> (\<exists>e. map_of ex_dirty p = Some e \<and> Worktree e = Deleted)"
    by (simp add: ex_worktree_kept_def ex_worktree_def ex_files_kept_def ex_dirty_def ex_entry_def)
  have 4: "Filesystem_Open (ex_worktree ex_dirty) ''README.md'' = Inl (LibError ''file does not exist'')"
    by (simp add: ex_worktree_def ex_files_def)
  have 5: "hashChanges (ex_worktree ex_dirty) ex_dirty [''README.md'', ''src/main.go''] []
     = Inr (bytes ''D README.mdM src/main.gopackage main'')"
    by (simp add: ex_dirty_def ex_entry_def StatusCode_defs fmt_c_def Let_def digest_Write_def
        io_Copy_def ex_worktree_def ex_files_def bytes_def)
  from deleted_not_read [OF 1 2 3, of "[''src/main.go'']" "[]" "[''README.md'', ''src/main.go'']"]
  have "hashChanges (ex_worktree ex_dirty) ex_dirty [''README.md'', ''src/main.go''] []
     = hashChanges (ex_worktree ex_dirty) ex_dirty [''src/main.go''] ([] @ bytes (''D '' @ ''README.md''))"
    and "hashChanges (ex_worktree_kept ex_dirty) ex_dirty [''README.md'', ''src/main.go''] []
     = hashChanges (ex_worktree ex_dirty) ex_dirty [''README.md'', ''src/main.go''] []"
    by blast+
  with 4 5 show ?thesis by simp
qed

subsection \<open>The clean case\<close>

text \<open>
  What the code selects. When the status is clean and the tags are enumerated to their
  end, the tag after the colon is \<open>baseTag\<close>: the short hash, replaced by the short name
  of each enumerated reference whose own hash is that of \<^verbatim>\<open>HEAD\<close>, so that the last
  such reference in the order of the enumeration remains. With a lightweight tag
  \<^verbatim>\<open>v1.2.3\<close> at \<^verbatim>\<open>HEAD\<close> the result is the image name and \<^verbatim>\<open>:v1.2.3\<close>.
\<close>

lemma clean_tag_selection:
  assumes "PlainOpenWithOptions workingDir = Inr repo"
    and "Repository_Worktree repo = Inr w"
    and "Worktree_Status w = Inr status"
    and "Head repo = Inr head"
    and "IsClean status"
    and "fst (Tags repo) = Some tagrefs"
    and "iterError tagrefs = None"
  shows "GenerateFullyQualifiedImageName PlainOpenWithOptions workingDir opts =
           Return (ImageName opts @ '':'' @ baseTag head (refs tagrefs)) None
       \<and> baseTag head [] = take 7 (Hash_String (Hash head))
       \<and> (\<forall>t tags. baseTag head (tags @ [t]) =
             (if Hash t = Hash head then Short (Name t) else baseTag head tags))
       \<and> (\<forall>before t after. Hash t = Hash head \<and> (\<forall>t' \<in> set after. Hash t' \<noteq> Hash head)
             \<longrightarrow> baseTag head (before @ t # after) = Short (Name t))"
proof -
  have "GenerateFullyQualifiedImageName PlainOpenWithOptions workingDir opts =
           Return (ImageName opts @ '':'' @ baseTag head (refs tagrefs)) None"
    by (simp add: assms(6,7)
        clean_outcome [where PlainOpenWithOptions = PlainOpenWithOptions
          and workingDir = workingDir, OF assms(1-5)])
  moreover have "baseTag head [] = take 7 (Hash_String (Hash head))"
    by (simp add: baseTag_def shortHash_def)
  moreover have "baseTag head (tags @ [t]) =
             (if Hash t = Hash head then Short (Name t) else baseTag head tags)" for t tags
    by (simp add: baseTag_def)
  moreover have "baseTag head (before @ t # after) = Short (Name t)"
    if "Hash t = Hash head" and "\<forall>t' \<in> set after. Hash t' \<noteq> Hash head" for before t after
  proof -
    from that(2) have "filter (\<lambda>t. Hash t = Hash head) after = []"
      by (simp add: filter_empty_conv)
    then show ?thesis
      using that(1) by (simp add: baseTag_def)
  qed
  ultimately show ?thesis by blast
qed

lemma clean_tag_selection_example:
  "GenerateFullyQualifiedImageName (ex_git ex_clean ex_tags_one) ''/src/myapp'' ex_opts =
     Return ''myapp:v1.2.3'' None"
proof -
  have 1: "IsClean ex_clean"
    by (simp add: IsClean_def ex_clean_def ex_entry_def)
  have 2: "fst (Tags (ex_repo ex_clean ex_tags_one)) = Some
     \<lparr>refs = [ex_tag ''v0.9.0'' 0x1111111111111111111111111111111111111111,
              ex_tag ''v1.2.3'' 0xabcdef1234567890abcdef1234567890abcdef12],
      iterError = None\<rparr>"
    by (simp add: ex_opened ex_tags_one_def)
  have 3: "baseTag ex_head [ex_tag ''v0.9.0'' 0x1111111111111111111111111111111111111111,
              ex_tag ''v1.2.3'' 0xabcdef1234567890abcdef1234567890abcdef12] = ''v1.2.3''"
    by (simp add: baseTag_def ex_head_def ex_tag_def)
  show ?thesis
    using clean_tag_selection [where PlainOpenWithOptions = "ex_git ex_clean ex_tags_one"
        and workingDir = "''/src/myapp''" and opts = ex_opts,
        OF ex_opened(1-4) 1 2] 3
    by (simp add: ex_opts_def)
qed

text \<open>For lightweight tags the two readings of the base tag are one.\<close>

lemma baseTag_lightweight:
  assumes "\<forall>t \<in> set tags. objects (Hash t) = None"
  shows "baseTag_of_targets objects head tags = baseTag head tags"
proof -
  have "filter (\<lambda>t. targetCommit objects t = Hash head) tags
      = filter (\<lambda>t. Hash t = Hash head) tags"
    using assms by (intro filter_cong refl) (simp add: targetCommit_def)
  then show ?thesis
    by (simp add: baseTag_of_targets_def baseTag_def)
qed

text \<open>
  C7. The claim: in the clean case the base tag is replaced by the short name of each
  enumerated tag whose target commit is that of \<^verbatim>\<open>HEAD\<close>, so that one tag
  \<^verbatim>\<open>v1.2.3\<close> at \<^verbatim>\<open>HEAD\<close> gives the image name and \<^verbatim>\<open>:v1.2.3\<close>. The code
  compares the hash the reference holds, \<^verbatim>\<open>t.Hash()\<close>, with that of \<^verbatim>\<open>HEAD\<close>. For
  an annotated tag that is the hash of the tag object: with the annotated tag
  \<^verbatim>\<open>v1.2.3\<close> at \<^verbatim>\<open>HEAD\<close> as the only tag, the function returns the image name and
  the short hash.
\<close>

theorem annotated_tag_not_selected:
  "targetCommit ex_tag_objects (ex_tag ''v1.2.3'' 0x2222222222222222222222222222222222222222)
     = Hash ex_head
   \<and> baseTag_of_targets ex_tag_objects ex_head
       [ex_tag ''v1.2.3'' 0x2222222222222222222222222222222222222222] = ''v1.2.3''
   \<and> GenerateFullyQualifiedImageName (ex_git ex_clean ex_tags_annotated) ''/src/myapp'' ex_opts
     = Return ''myapp:abcdef1'' None"
proof -
  have target: "targetCommit ex_tag_objects (ex_tag ''v1.2.3'' 0x2222222222222222222222222222222222222222)
     = Hash ex_head"
    by (simp add: targetCommit_def ex_tag_objects_def ex_tag_def ex_head_def)
  then have claimed: "baseTag_of_targets ex_tag_objects ex_head
       [ex_tag ''v1.2.3'' 0x2222222222222222222222222222222222222222] = ''v1.2.3''"
    by (simp add: baseTag_of_targets_def ex_tag_def)
  have clean: "IsClean ex_clean"
    by (simp add: IsClean_def ex_clean_def ex_entry_def)
  have code: "baseTag ex_head [ex_tag ''v1.2.3'' 0x2222222222222222222222222222222222222222]
       = ''abcdef1''"
    by (simp add: baseTag_def shortHash_def ex_shortHash) (simp add: ex_tag_def ex_head_def)
  note run = clean_outcome [where PlainOpenWithOptions = "ex_git ex_clean ex_tags_annotated"
      and workingDir = "''/src/myapp''" and opts = ex_opts, OF ex_opened(1-4) clean]
  have "GenerateFullyQualifiedImageName (ex_git ex_clean ex_tags_annotated) ''/src/myapp'' ex_opts
     = Return ''myapp:abcdef1'' None"
    unfolding run by (simp add: ex_tags_annotated_def ex_opened ex_opts_def code)
  with target claimed show ?thesis
    by (intro conjI)
qed

text \<open>
  C2. When the status is clean and no enumerated tag has the hash of \<^verbatim>\<open>HEAD\<close>, the
  function returns the image name, a colon and the first 7 characters of the commit
  identifier's 40 lower-case hexadecimal digits.
\<close>

theorem clean_untagged:
  assumes "PlainOpenWithOptions workingDir = Inr repo"
    and "Repository_Worktree repo = Inr w"
    and "Worktree_Status w = Inr status"
    and "Head repo = Inr head"
    and "IsClean status"
    and "fst (Tags repo) = Some tagrefs"
    and "iterError tagrefs = None"
    and "\<forall>t \<in> set (refs tagrefs). Hash t \<noteq> Hash head"
  shows "GenerateFullyQualifiedImageName PlainOpenWithOptions workingDir opts =
           Return (ImageName opts @ '':'' @ take 7 (Hash_String (Hash head))) None
       \<and> length (take 7 (Hash_String (Hash head))) = 7
       \<and> set (take 7 (Hash_String (Hash head))) \<subseteq> set ''0123456789abcdef''"
proof -
  from assms(8) have "filter (\<lambda>t. Hash t = Hash head) (refs tagrefs) = []"
    by (simp add: filter_empty_conv)
  then have "baseTag head (refs tagrefs) = take 7 (Hash_String (Hash head))"
    by (simp add: baseTag_def shortHash_def)
  then have "GenerateFullyQualifiedImageName PlainOpenWithOptions workingDir opts =
           Return (ImageName opts @ '':'' @ take 7 (Hash_String (Hash head))) None"
    by (simp add: assms(6,7)
        clean_outcome [where PlainOpenWithOptions = PlainOpenWithOptions
          and workingDir = workingDir, OF assms(1-5)])
  moreover have "length (take 7 (Hash_String (Hash head))) = 7"
    by (simp add: length_Hash_String)
  moreover have "set (take 7 (Hash_String (Hash head))) \<subseteq> set ''0123456789abcdef''"
    using set_take_subset [of 7 "Hash_String (Hash head)"]
      set_EncodeToString [of "Hash_bytes (Hash head)"]
    unfolding Hash_String_def hextable_def by (rule subset_trans)
  ultimately show ?thesis by blast
qed

theorem clean_untagged_witness:
  "GenerateFullyQualifiedImageName (ex_git ex_clean ex_tags_none) ''/src/myapp'' ex_opts =
     Return ''myapp:abcdef1'' None"
proof -
  have 1: "IsClean ex_clean"
    by (simp add: IsClean_def ex_clean_def ex_entry_def)
  have 2: "fst (Tags (ex_repo ex_clean ex_tags_none)) = Some
     \<lparr>refs = [ex_tag ''v0.9.0'' 0x1111111111111111111111111111111111111111], iterError = None\<rparr>"
    by (simp add: ex_opened ex_tags_none_def)
  have 3: "\<forall>t \<in> set (refs \<lparr>refs = [ex_tag ''v0.9.0'' 0x1111111111111111111111111111111111111111],
       iterError = None\<rparr>). Hash t \<noteq> Hash ex_head"
    by (simp add: ex_tag_def ex_head_def)
  show ?thesis
    using clean_untagged [where PlainOpenWithOptions = "ex_git ex_clean ex_tags_none"
        and workingDir = "''/src/myapp''" and opts = ex_opts,
        OF ex_opened(1-4) 1 2 _ 3]
    by (simp add: ex_opts_def ex_shortHash)
qed

subsection \<open>Failures\<close>

text \<open>
  What the function returns when a call of go-git or a read fails: the empty string and
  the error of the call, wrapped with the label of the stage.
\<close>

lemma open_failure:
  "PlainOpenWithOptions workingDir = Inl err \<Longrightarrow>
   GenerateFullyQualifiedImageName PlainOpenWithOptions workingDir opts =
     Return [] (Some (Wrap err ''opening git repo''))"
  by (simp add: GenerateFullyQualifiedImageName_def)

lemma worktree_failure:
  "PlainOpenWithOptions workingDir = Inr repo \<Longrightarrow> Repository_Worktree repo = Inl err \<Longrightarrow>
   GenerateFullyQualifiedImageName PlainOpenWithOptions workingDir opts =
     Return [] (Some (Wrap err ''reading worktree''))"
  by (simp add: GenerateFullyQualifiedImageName_def)

lemma status_failure:
  "PlainOpenWithOptions workingDir = Inr repo \<Longrightarrow> Repository_Worktree repo = Inr w \<Longrightarrow>
   Worktree_Status w = Inl err \<Longrightarrow>
   GenerateFullyQualifiedImageName PlainOpenWithOptions workingDir opts =
     Return [] (Some (Wrap err ''reading status''))"
  by (simp add: GenerateFullyQualifiedImageName_def)

lemma head_failure:
  "PlainOpenWithOptions workingDir = Inr repo \<Longrightarrow> Repository_Worktree repo = Inr w \<Longrightarrow>
   Worktree_Status w = Inr status \<Longrightarrow> Head repo = Inl err \<Longrightarrow>
   GenerateFullyQualifiedImageName PlainOpenWithOptions workingDir opts =
     Return [] (Some (Wrap err ''determining current git commit''))"
  by (simp add: GenerateFullyQualifiedImageName_def)

lemma iteration_failure:
  assumes "PlainOpenWithOptions workingDir = Inr repo"
    and "Repository_Worktree repo = Inr w"
    and "Worktree_Status w = Inr status"
    and "Head repo = Inr head"
    and "IsClean status"
    and "fst (Tags repo) = Some tagrefs"
    and "iterError tagrefs = Some err"
  shows "GenerateFullyQualifiedImageName PlainOpenWithOptions workingDir opts =
     Return [] (Some (Wrap err ''determining git tag''))"
  by (simp add: assms(6,7)
        clean_outcome [where PlainOpenWithOptions = PlainOpenWithOptions
          and workingDir = workingDir, OF assms(1-5)])

text \<open>The loop leaves early with a wrapped error and the empty string only.\<close>

lemma hashChanges_early:
  "hashChanges w status ps h = Inl early \<Longrightarrow>
   early = Panic NilDereference
   \<or> (\<exists>err. early = Return [] (Some (Wrap err ''reading diff'')))"
  by (induction ps arbitrary: h)
     (auto simp: Let_def digest_Write_def io_Copy_def split: option.splits sum.splits if_splits)

lemma hashChanges_no_nil:
  "set ps \<subseteq> fst ` set status \<Longrightarrow> hashChanges w status ps h \<noteq> Inl (Panic NilDereference)"
proof (induction ps arbitrary: h)
  case Nil
  show ?case by simp
next
  case (Cons p ps)
  then obtain e where "map_of status p = Some e"
    by (cases "map_of status p") (auto simp: map_of_eq_None_iff)
  then show ?case
    using Cons
    by (simp add: Let_def digest_Write_def io_Copy_def split: option.splits sum.splits)
qed

text \<open>
  Every outcome of the function: a tag and no error; the empty string and an error
  wrapped with one of the six labels; or the panic on the \<^verbatim>\<open>nil\<close> iterator, which
  happens exactly when the repository, worktree, status and \<^verbatim>\<open>HEAD\<close> were read, the
  status is clean and \<^verbatim>\<open>repo.Tags()\<close> returned no iterator.
\<close>

lemma outcomes:
  "(\<exists>tag. GenerateFullyQualifiedImageName PlainOpenWithOptions workingDir opts = Return tag None)
   \<or> (\<exists>err label. GenerateFullyQualifiedImageName PlainOpenWithOptions workingDir opts
          = Return [] (Some (Wrap err label))
        \<and> label \<in> stage_labels)
   \<or> (GenerateFullyQualifiedImageName PlainOpenWithOptions workingDir opts = Panic NilDereference
        \<and> (\<exists>repo w status head. PlainOpenWithOptions workingDir = Inr repo
              \<and> Repository_Worktree repo = Inr w \<and> Worktree_Status w = Inr status
              \<and> Head repo = Inr head \<and> IsClean status \<and> fst (Tags repo) = None))"
proof -
  let ?R = "GenerateFullyQualifiedImageName PlainOpenWithOptions workingDir opts"
  have failed: ?thesis if "?R = Return [] (Some (Wrap err label))" and "label \<in> stage_labels"
    for err label
    using that by blast
  show ?thesis
  proof (cases "PlainOpenWithOptions workingDir")
    case (Inl err)
    then have "?R = Return [] (Some (Wrap err ''opening git repo''))"
      by (rule open_failure)
    then show ?thesis by (rule failed) (simp add: stage_labels_def)
  next
    case repo: (Inr repo)
    show ?thesis
    proof (cases "Repository_Worktree repo")
      case (Inl err)
      with repo have "?R = Return [] (Some (Wrap err ''reading worktree''))"
        by (rule worktree_failure)
      then show ?thesis by (rule failed) (simp add: stage_labels_def)
    next
      case w: (Inr w)
      show ?thesis
      proof (cases "Worktree_Status w")
        case (Inl err)
        with repo w have "?R = Return [] (Some (Wrap err ''reading status''))"
          by (rule status_failure)
        then show ?thesis by (rule failed) (simp add: stage_labels_def)
      next
        case status: (Inr status)
        show ?thesis
        proof (cases "Head repo")
          case (Inl err)
          with repo w status have "?R = Return [] (Some (Wrap err ''determining current git commit''))"
            by (rule head_failure)
          then show ?thesis by (rule failed) (simp add: stage_labels_def)
        next
          case head: (Inr head)
          note opened = repo w status head
          show ?thesis
          proof (cases "IsClean status")
            case True
            note clean = clean_outcome [where PlainOpenWithOptions = PlainOpenWithOptions
                and workingDir = workingDir and opts = opts, OF opened True]
            show ?thesis
            proof (cases "fst (Tags repo)")
              case None
              then have "?R = Panic NilDereference"
                by (simp add: clean)
              with opened True None show ?thesis by blast
            next
              case (Some tagrefs)
              show ?thesis
              proof (cases "iterError tagrefs")
                case None
                with Some have "?R = Return (ImageName opts @ '':'' @ baseTag head (refs tagrefs)) None"
                  by (simp add: clean)
                then show ?thesis by blast
              next
                case (Some err)
                with \<open>fst (Tags repo) = Some tagrefs\<close>
                have "?R = Return [] (Some (Wrap err ''determining git tag''))"
                  by (simp add: clean)
                then show ?thesis by (rule failed) (simp add: stage_labels_def)
              qed
            qed
          next
            case False
            note dirty = dirty_outcome [where PlainOpenWithOptions = PlainOpenWithOptions
                and workingDir = workingDir and opts = opts, OF opened False]
            show ?thesis
            proof (cases "hashChanges w status (changedPaths status) []")
              case (Inr h)
              then have "?R = Return (ImageName opts @ '':'' @ take 7 (Hash_String (Hash head))
                    @ ''-dirty-'' @ take 16 (EncodeToString (sha256 h))) None"
                by (simp add: dirty)
              then show ?thesis by blast
            next
              case (Inl early)
              then have R: "?R = early"
                by (simp add: dirty)
              have "set (changedPaths status) \<subseteq> fst ` set status"
                by (auto simp: set_changedPaths)
              then have "hashChanges w status (changedPaths status) [] \<noteq> Inl (Panic NilDereference)"
                by (rule hashChanges_no_nil)
              with Inl have "early \<noteq> Panic NilDereference"
                by simp
              with hashChanges_early [OF Inl] obtain err where
                "early = Return [] (Some (Wrap err ''reading diff''))"
                by blast
              with R have "?R = Return [] (Some (Wrap err ''reading diff''))"
                by simp
              then show ?thesis by (rule failed) (simp add: stage_labels_def)
            qed
          qed
        qed
      qed
    qed
  qed
qed

subsection \<open>Slices\<close>

text \<open>
  C10. The commit identifier is 20 bytes, its hexadecimal string 40 characters; a SHA-256
  digest is 32 bytes, its hexadecimal string 64 characters. So both slice expressions,
  \<^verbatim>\<open>commitHash[0:7]\<close> and \<^verbatim>\<open>hex.EncodeToString(sha[:])[:16]\<close>, are in range,
  and the function never panics on a slice.
\<close>

theorem slices_in_range:
  "length (Hash_String commit) = 40
   \<and> slice_to (Hash_String commit) 7 = Some (take 7 (Hash_String commit))
   \<and> length (EncodeToString (digest_Sum h)) = 64
   \<and> slice_to (EncodeToString (digest_Sum h)) 16 = Some (take 16 (EncodeToString (digest_Sum h)))
   \<and> GenerateFullyQualifiedImageName PlainOpenWithOptions workingDir opts \<noteq> Panic SliceOutOfRange"
proof -
  have "GenerateFullyQualifiedImageName PlainOpenWithOptions workingDir opts \<noteq> Panic SliceOutOfRange"
    using outcomes [of PlainOpenWithOptions workingDir opts] by auto
  moreover have "length (EncodeToString (digest_Sum h)) = 64"
    by (simp add: length_EncodeToString digest_Sum_def length_sha256)
  ultimately show ?thesis
    by (simp only: length_Hash_String slice_to_Hash_String slice_to_digest simp_thms)
qed

theorem slices_in_range_witness:
  "slice_to (Hash_String 0xabcdef1234567890abcdef1234567890abcdef12) 7 = Some ''abcdef1''
   \<and> length (Hash_String 0xabcdef1234567890abcdef1234567890abcdef12) = 40
   \<and> length (EncodeToString (digest_Sum (bytes ''D README.md''))) = 64
   \<and> GenerateFullyQualifiedImageName (ex_git ex_dirty ex_tags_none) ''/src/myapp'' ex_opts
       \<noteq> Panic SliceOutOfRange"
proof -
  have "take 7 (Hash_String 0xabcdef1234567890abcdef1234567890abcdef12) = ''abcdef1''"
    using ex_shortHash by (simp add: ex_head_def)
  then show ?thesis
    using slices_in_range [of "0xabcdef1234567890abcdef1234567890abcdef12" "bytes ''D README.md''"
        "ex_git ex_dirty ex_tags_none" "''/src/myapp''" ex_opts]
    by simp
qed

subsection \<open>Failures on the example repository\<close>

lemma failure_examples:
  "GenerateFullyQualifiedImageName (ex_git ex_clean ex_tags_none) ''/tmp'' ex_opts =
     Return [] (Some (Wrap (LibError ''repository does not exist'') ''opening git repo''))"
  "GenerateFullyQualifiedImageName (\<lambda>workingDir. Inr ex_repo_no_worktree) ''/src/myapp'' ex_opts =
     Return [] (Some (Wrap (LibError ''worktree not available in a bare repository'')
       ''reading worktree''))"
  "GenerateFullyQualifiedImageName (\<lambda>workingDir. Inr ex_repo_no_status) ''/src/myapp'' ex_opts =
     Return [] (Some (Wrap (LibError ''index file corrupt'') ''reading status''))"
  "GenerateFullyQualifiedImageName (\<lambda>workingDir. Inr ex_repo_no_head) ''/src/myapp'' ex_opts =
     Return [] (Some (Wrap (LibError ''reference not found'') ''determining current git commit''))"
  "GenerateFullyQualifiedImageName (ex_git ex_clean ex_tags_broken) ''/src/myapp'' ex_opts =
     Return [] (Some (Wrap (LibError ''unexpected EOF'') ''determining git tag''))"
  "GenerateFullyQualifiedImageName (ex_git ex_unreadable ex_tags_none) ''/src/myapp'' ex_opts =
     Return [] (Some (Wrap (LibError ''file does not exist'') ''reading diff''))"
proof -
  show "GenerateFullyQualifiedImageName (ex_git ex_clean ex_tags_none) ''/tmp'' ex_opts =
     Return [] (Some (Wrap (LibError ''repository does not exist'') ''opening git repo''))"
    by (rule open_failure) (simp add: ex_git_def)
  show "GenerateFullyQualifiedImageName (\<lambda>workingDir. Inr ex_repo_no_worktree) ''/src/myapp'' ex_opts =
     Return [] (Some (Wrap (LibError ''worktree not available in a bare repository'')
       ''reading worktree''))"
    by (rule worktree_failure [where repo = ex_repo_no_worktree]) (simp_all add: ex_repo_no_worktree_def)
  show "GenerateFullyQualifiedImageName (\<lambda>workingDir. Inr ex_repo_no_status) ''/src/myapp'' ex_opts =
     Return [] (Some (Wrap (LibError ''index file corrupt'') ''reading status''))"
    by (rule status_failure [where repo = ex_repo_no_status
          and w = "\<lparr>Worktree_Status = Inl (LibError ''index file corrupt''), Filesystem_Open = ex_files\<rparr>"])
       (simp_all add: ex_repo_no_status_def)
  show "GenerateFullyQualifiedImageName (\<lambda>workingDir. Inr ex_repo_no_head) ''/src/myapp'' ex_opts =
     Return [] (Some (Wrap (LibError ''reference not found'') ''determining current git commit''))"
    by (rule head_failure [where repo = ex_repo_no_head and w = "ex_worktree ex_clean"
          and status = ex_clean])
       (simp_all add: ex_repo_no_head_def ex_worktree_def)
  have clean: "IsClean ex_clean"
    by (simp add: IsClean_def ex_clean_def ex_entry_def)
  show "GenerateFullyQualifiedImageName (ex_git ex_clean ex_tags_broken) ''/src/myapp'' ex_opts =
     Return [] (Some (Wrap (LibError ''unexpected EOF'') ''determining git tag''))"
    by (rule iteration_failure [where PlainOpenWithOptions = "ex_git ex_clean ex_tags_broken"
          and workingDir = "''/src/myapp''"
          and tagrefs = "\<lparr>refs = [ex_tag ''v1.2.3'' 0xabcdef1234567890abcdef1234567890abcdef12],
            iterError = Some (LibError ''unexpected EOF'')\<rparr>", OF ex_opened(1-4) clean])
       (simp_all add: ex_opened ex_tags_broken_def)
  have dirty: "\<not> IsClean ex_unreadable"
    by (simp add: IsClean_def ex_unreadable_def ex_entry_def StatusCode_defs)
  show "GenerateFullyQualifiedImageName (ex_git ex_unreadable ex_tags_none) ''/src/myapp'' ex_opts =
     Return [] (Some (Wrap (LibError ''file does not exist'') ''reading diff''))"
    by (simp add: dirty_outcome [where PlainOpenWithOptions = "ex_git ex_unreadable ex_tags_none"
          and workingDir = "''/src/myapp''", OF ex_opened(1-4) dirty])
       (simp add: changedPaths_def ex_unreadable_def ex_entry_def StatusCode_defs Let_def
          digest_Write_def ex_opened ex_files_def)
qed

subsection \<open>The error of \<^verbatim>\<open>repo.Tags()\<close>\<close>

text \<open>
  The code binds the error of \<^verbatim>\<open>repo.Tags()\<close> to \<^verbatim>\<open>_\<close>: whatever it is, the
  function goes on to \<^verbatim>\<open>tagrefs.ForEach\<close>.
\<close>

lemma Tags_error_unread:
  assumes "PlainOpenWithOptions workingDir = Inr repo"
    and "PlainOpenWithOptions' workingDir = Inr (repo\<lparr>Tags := (fst (Tags repo), err)\<rparr>)"
  shows "GenerateFullyQualifiedImageName PlainOpenWithOptions' workingDir opts =
         GenerateFullyQualifiedImageName PlainOpenWithOptions workingDir opts"
  by (simp add: GenerateFullyQualifiedImageName_def assms Let_def
      cong: sum.case_cong option.case_cong if_cong)

text \<open>
  C6. The claim: on every failure, that of the tag enumeration among them, the function
  returns at once the empty string and an error wrapped with the label of the stage. For
  a clean repository whose tags cannot be listed, \<^verbatim>\<open>repo.Tags()\<close> returning no iterator
  and an error, the function returns nothing at all: it calls \<^verbatim>\<open>ForEach\<close> on the
  \<^verbatim>\<open>nil\<close> iterator.
\<close>

theorem tags_failure_returns_nothing:
  "fst ex_tags_failed = None
   \<and> snd ex_tags_failed = Some (LibError ''permission denied'')
   \<and> (\<forall>tag err. GenerateFullyQualifiedImageName (ex_git ex_clean ex_tags_failed) ''/src/myapp'' ex_opts
         \<noteq> Return tag err)"
proof -
  have clean: "IsClean ex_clean"
    by (simp add: IsClean_def ex_clean_def ex_entry_def)
  note run = clean_outcome [where PlainOpenWithOptions = "ex_git ex_clean ex_tags_failed"
      and workingDir = "''/src/myapp''" and opts = ex_opts, OF ex_opened(1-4) clean]
  show ?thesis
    unfolding run by (simp add: ex_tags_failed_def ex_opened)
qed

text \<open>
  C8. The claim: in the clean case every failure of the tag enumeration reaches the caller
  as a wrapped error. The error of \<^verbatim>\<open>repo.Tags()\<close> does not: on the repository above
  the outcome is the panic of a \<^verbatim>\<open>nil\<close> dereference, and had the library returned an
  iterator with its error, the function would have returned a tag and no error.
\<close>

theorem tags_error_dropped:
  "GenerateFullyQualifiedImageName (ex_git ex_clean ex_tags_failed) ''/src/myapp'' ex_opts
     = Panic NilDereference
   \<and> GenerateFullyQualifiedImageName
        (ex_git ex_clean (fst ex_tags_one, Some (LibError ''permission denied''))) ''/src/myapp'' ex_opts
     = Return ''myapp:v1.2.3'' None"
proof -
  have clean: "IsClean ex_clean"
    by (simp add: IsClean_def ex_clean_def ex_entry_def)
  have "baseTag ex_head [ex_tag ''v0.9.0'' 0x1111111111111111111111111111111111111111,
              ex_tag ''v1.2.3'' 0xabcdef1234567890abcdef1234567890abcdef12] = ''v1.2.3''"
    by (simp add: baseTag_def ex_head_def ex_tag_def)
  note tag = this
  note nil = clean_outcome [where PlainOpenWithOptions = "ex_git ex_clean ex_tags_failed"
      and workingDir = "''/src/myapp''" and opts = ex_opts, OF ex_opened(1-4) clean]
  note kept = clean_outcome [where PlainOpenWithOptions =
        "ex_git ex_clean (fst ex_tags_one, Some (LibError ''permission denied''))"
      and workingDir = "''/src/myapp''" and opts = ex_opts, OF ex_opened(1-4) clean]
  show ?thesis
    unfolding nil kept by (simp add: ex_tags_failed_def ex_tags_one_def ex_opened ex_opts_def tag)
qed

subsection \<open>Worktree codes and staging codes\<close>

lemma hashChanges_worktree_codes:
  assumes "map (\<lambda>(path, entry). (path, Worktree entry)) status'
         = map (\<lambda>(path, entry). (path, Worktree entry)) status"
  shows "hashChanges w status' ps h = hashChanges w status ps h"
proof -
  have "map_of (map (\<lambda>(path, entry). (path, Worktree entry)) status') p
      = map_of (map (\<lambda>(path, entry). (path, Worktree entry)) status) p" for p
    using assms by simp
  then have codes: "map_option Worktree (map_of status' p) = map_option Worktree (map_of status p)" for p
    by (simp add: map_of_map)
  show ?thesis
  proof (induction ps arbitrary: h)
    case Nil
    show ?case by simp
  next
    case (Cons p ps)
    show ?case
      using codes [of p] Cons
      by (cases "map_of status' p"; cases "map_of status p")
           (simp_all add: Let_def digest_Write_def split: sum.splits prod.splits option.splits)
  qed
qed

lemma changedPaths_worktree_codes:
  assumes "map (\<lambda>(path, entry). (path, Worktree entry)) status'
         = map (\<lambda>(path, entry). (path, Worktree entry)) status"
  shows "changedPaths status' = changedPaths status"
proof -
  have "map fst (filter (\<lambda>(path, change). Worktree change \<noteq> Unmodified) st)
      = map fst (filter (\<lambda>(path, code). code \<noteq> Unmodified)
          (map (\<lambda>(path, entry). (path, Worktree entry)) st))" for st :: Status
    by (induction st) auto
  then show ?thesis
    by (simp only: changedPaths_eq assms)
qed

text \<open>
  C9. When the status is not clean and yet every worktree code is unmodified, as when
  changes are staged only, there is no changed path, nothing is written to the digest,
  and the tag ends in \<^verbatim>\<open>-dirty-\<close> and the first 16 hexadecimal characters of the SHA-256
  digest of the empty input, \<^verbatim>\<open>e3b0c44298fc1c14\<close>, whatever is staged. In general two
  statuses with the same paths and worktree codes in the same order have the same changed
  paths and feed the digest alike: the staging codes are not read after \<^verbatim>\<open>IsClean\<close>.
\<close>

theorem staged_only:
  "(PlainOpenWithOptions workingDir = Inr repo \<and> Repository_Worktree repo = Inr w
      \<and> Worktree_Status w = Inr status \<and> Head repo = Inr head
      \<and> \<not> IsClean status \<and> (\<forall>(path, entry) \<in> set status. Worktree entry = Unmodified)
    \<longrightarrow> changedPaths status = []
      \<and> GenerateFullyQualifiedImageName PlainOpenWithOptions workingDir opts =
           Return (ImageName opts @ '':'' @ take 7 (Hash_String (Hash head)) @ ''-dirty-''
                   @ take 16 (EncodeToString (sha256 []))) None
      \<and> take 16 (EncodeToString (sha256 [])) = ''e3b0c44298fc1c14'')
   \<and> (map (\<lambda>(path, entry). (path, Worktree entry)) status'
         = map (\<lambda>(path, entry). (path, Worktree entry)) status
    \<longrightarrow> changedPaths status' = changedPaths status
      \<and> hashChanges w status' ps h = hashChanges w status ps h)"
proof (intro conjI impI)
  assume a: "PlainOpenWithOptions workingDir = Inr repo \<and> Repository_Worktree repo = Inr w
      \<and> Worktree_Status w = Inr status \<and> Head repo = Inr head
      \<and> \<not> IsClean status \<and> (\<forall>(path, entry) \<in> set status. Worktree entry = Unmodified)"
  then have "filter (\<lambda>(path, change). Worktree change \<noteq> Unmodified) status = []"
    by (auto simp: filter_empty_conv)
  then show none: "changedPaths status = []"
    by (simp add: changedPaths_eq)
  from a have opened: "PlainOpenWithOptions workingDir = Inr repo" "Repository_Worktree repo = Inr w"
      "Worktree_Status w = Inr status" "Head repo = Inr head" "\<not> IsClean status"
    by simp_all
  show "GenerateFullyQualifiedImageName PlainOpenWithOptions workingDir opts =
           Return (ImageName opts @ '':'' @ take 7 (Hash_String (Hash head)) @ ''-dirty-''
                   @ take 16 (EncodeToString (sha256 []))) None"
    by (simp add: none
        dirty_outcome [where PlainOpenWithOptions = PlainOpenWithOptions
          and workingDir = workingDir, OF opened])
  show "take 16 (EncodeToString (sha256 [])) = ''e3b0c44298fc1c14''"
    by (simp add: sha256_empty)
next
  assume "map (\<lambda>(path, entry). (path, Worktree entry)) status'
         = map (\<lambda>(path, entry). (path, Worktree entry)) status"
  then show "changedPaths status' = changedPaths status"
    and "hashChanges w status' ps h = hashChanges w status ps h"
    by (rule changedPaths_worktree_codes, rule hashChanges_worktree_codes)
qed

theorem staged_only_witness:
  "GenerateFullyQualifiedImageName (ex_git ex_staged ex_tags_none) ''/src/myapp'' ex_opts =
     Return ''myapp:abcdef1-dirty-e3b0c44298fc1c14'' None
   \<and> changedPaths ex_staged = []
   \<and> \<not> IsClean ex_staged
   \<and> changedPaths [(''src/main.go'', ex_entry Deleted Unmodified)] = changedPaths ex_staged"
proof -
  have 1: "\<not> IsClean ex_staged"
    by (simp add: IsClean_def ex_staged_def ex_entry_def StatusCode_defs)
  have 2: "\<forall>(path, entry) \<in> set ex_staged. Worktree entry = Unmodified"
    by (simp add: ex_staged_def ex_entry_def)
  have 3: "map (\<lambda>(path, entry). (path, Worktree entry)) [(''src/main.go'', ex_entry Deleted Unmodified)]
         = map (\<lambda>(path, entry). (path, Worktree entry)) ex_staged"
    by (simp add: ex_staged_def ex_entry_def)
  show ?thesis
    using staged_only [where PlainOpenWithOptions = "ex_git ex_staged ex_tags_none"
        and workingDir = "''/src/myapp''" and opts = ex_opts and repo = "ex_repo ex_staged ex_tags_none"
        and w = "ex_worktree ex_staged" and status = ex_staged and head = ex_head
        and status' = "[(''src/main.go'', ex_entry Deleted Unmodified)]"]
      1 2 3
    by (simp add: ex_opened ex_opts_def ex_shortHash)
qed

end
